theory Spec2Isabelle
  imports Main "HOL-Library.Sublist"
begin

section \<open>Data model\<close>

text \<open>
  The embedding follows \<^verbatim>\<open>src/index.ts\<close>. A Node \<^verbatim>\<open>Buffer\<close> is a list of bytes;
  a byte is a \<^typ>\<open>char\<close>, which has exactly 256 values. Text decoded from a buffer
  (\<^verbatim>\<open>toString()\<close>) and a buffer made from text (\<^verbatim>\<open>Buffer.from\<close>) are modelled
  bytewise, which is what Node's UTF-8 conversion does on ASCII data; header text and
  field values with bytes from 0x80 on are outside the exact range of the model.
\<close>

type_synonym buffer = "char list"

text \<open>\<^verbatim>\<open>new Error(message)\<close>: thrown by the parsers or delivered by the stream.\<close>

datatype error = Error string

text \<open>The interface \<^verbatim>\<open>FileData\<close>.\<close>

record FileData =
  body :: buffer
  fileName :: string
  encoding :: string
  mimeType :: string

text \<open>
  An entry of the result object has the type \<^verbatim>\<open>string | FileData\<close>. The mapping of a
  result object is the map from the names of its own properties to their entries; the
  order of the properties is not modelled.
\<close>

datatype form_value = Field string | File FileData

type_synonym form_data = "string \<rightharpoonup> form_value"

text \<open>How a returned promise settles.\<close>

datatype 'a promise = Resolved 'a | Rejected error

text \<open>
  The request stream, as far as the parsers see it: the chunks that its \<^verbatim>\<open>data\<close> events
  will deliver, the event that closes it (\<^verbatim>\<open>end\<close>, or \<^verbatim>\<open>error\<close> with its error), and
  the names of the events that listeners have been attached to.
\<close>

datatype closing = Ended | Errored error

record readable =
  chunks :: "buffer list"
  closing :: closing
  listeners :: "string list"

section \<open>Buffer and string primitives\<close>

definition CRLF :: string where
  "CRLF = [CHR 0x0D, CHR 0x0A]"

definition startsWith :: "string \<Rightarrow> string \<Rightarrow> bool" where
  "startsWith s p = prefix p s"

text \<open>
  \<^verbatim>\<open>buf.subarray(start, end)\<close>: a negative index counts from the end of the buffer, both
  indices are clamped to the buffer, and the result is empty when the end is not after
  the start.
\<close>

definition clamp_index :: "nat \<Rightarrow> int \<Rightarrow> nat" where
  "clamp_index len i = (if i < 0 then nat (max 0 (int len + i)) else min len (nat i))"

definition subarray :: "buffer \<Rightarrow> int \<Rightarrow> int \<Rightarrow> buffer" where
  "subarray buf start stop =
     (let s = clamp_index (length buf) start;
          e = clamp_index (length buf) stop
      in take (e - s) (drop s buf))"

text \<open>
  \<^verbatim>\<open>buf.indexOf(value, byteOffset)\<close> for a byte offset that is not negative: the first
  position from the offset on at which \<^verbatim>\<open>value\<close> occurs, \<open>None\<close> for the result \<^verbatim>\<open>-1\<close>.
\<close>

fun index_from :: "buffer \<Rightarrow> buffer \<Rightarrow> nat \<Rightarrow> nat option" where
  "index_from needle [] i = (if needle = [] then Some i else None)"
| "index_from needle (x # xs) i =
     (if prefix needle (x # xs) then Some i else index_from needle xs (Suc i))"

definition indexOf :: "buffer \<Rightarrow> buffer \<Rightarrow> nat \<Rightarrow> nat option" where
  "indexOf buf needle byteOffset =
     index_from needle (drop byteOffset buf) (min byteOffset (length buf))"

text \<open>\<^verbatim>\<open>buf.toString("hex", start, end)\<close>: two lower-case hexadecimal digits a byte.\<close>

definition hex_digit :: "nat \<Rightarrow> char" where
  "hex_digit n = ''0123456789abcdef'' ! n"

definition hex_byte :: "char \<Rightarrow> string" where
  "hex_byte c = [hex_digit (of_char c div 16), hex_digit (of_char c mod 16)]"

definition toString_hex :: "buffer \<Rightarrow> nat \<Rightarrow> nat \<Rightarrow> string" where
  "toString_hex buf start stop = concat (map hex_byte (take (stop - start) (drop start buf)))"

text \<open>\<^verbatim>\<open>toLowerCase\<close>, on ASCII letters.\<close>

definition lower_char :: "char \<Rightarrow> char" where
  "lower_char c =
     (if 65 \<le> (of_char c :: nat) \<and> (of_char c :: nat) \<le> 90
      then char_of ((of_char c :: nat) + 32) else c)"

definition toLowerCase :: "string \<Rightarrow> string" where
  "toLowerCase s = map lower_char s"

section \<open>Pattern matching on header text\<close>

text \<open>
  The regular expressions of the source are a literal followed by one greedy group.
  \<open>search\<close> is the leftmost-match loop of \<^verbatim>\<open>exec\<close> and \<^verbatim>\<open>match\<close>: it tries the
  anchored matcher at every start position, the end of the text included.
\<close>

fun strip_literal :: "string \<Rightarrow> string \<Rightarrow> string option" where
  "strip_literal [] s = Some s"
| "strip_literal (p # ps) [] = None"
| "strip_literal (p # ps) (c # cs) = (if p = c then strip_literal ps cs else None)"

fun strip_literal_ci :: "string \<Rightarrow> string \<Rightarrow> string option" where
  "strip_literal_ci [] s = Some s"
| "strip_literal_ci (p # ps) [] = None"
| "strip_literal_ci (p # ps) (c # cs) =
     (if lower_char p = lower_char c then strip_literal_ci ps cs else None)"

fun search :: "(string \<Rightarrow> 'a option) \<Rightarrow> string \<Rightarrow> 'a option" where
  "search m [] = m []"
| "search m (c # cs) = (case m (c # cs) of Some r \<Rightarrow> Some r | None \<Rightarrow> search m cs)"

text \<open>
  \<^verbatim>\<open>lit([^"]+)"\<close> anchored at the start of \<open>s\<close>: the group takes every character up to
  the next double quote, needs at least one, and the quote has to be there.
\<close>

definition quoted_at :: "string \<Rightarrow> string \<Rightarrow> string option" where
  "quoted_at lit s =
     (case strip_literal lit s of
        None \<Rightarrow> None
      | Some rest \<Rightarrow>
          (let v = takeWhile (\<lambda>c. c \<noteq> CHR 0x22) rest
           in if v \<noteq> [] \<and> dropWhile (\<lambda>c. c \<noteq> CHR 0x22) rest \<noteq> [] then Some v else None))"

text \<open>\<^verbatim>\<open>/name="([^"]+)"/.exec(info)\<close>, the group of the match.\<close>

definition nameMatch :: "string \<Rightarrow> string option" where
  "nameMatch info = search (quoted_at ''name=\"'') info"

text \<open>\<^verbatim>\<open>/filename="([^"]+)"/.exec(info)\<close>, the group of the match.\<close>

definition filenameMatch :: "string \<Rightarrow> string option" where
  "filenameMatch info = search (quoted_at ''filename=\"'') info"

text \<open>\<^verbatim>\<open>info.includes(lit)\<close>.\<close>

definition includes_str :: "string \<Rightarrow> string \<Rightarrow> bool" where
  "includes_str info lit = (search (\<lambda>s. if prefix lit s then Some () else None) info \<noteq> None)"

text \<open>\<^verbatim>\<open>\S\<close> on ASCII: not a tab, line feed, vertical tab, form feed, carriage return or space.\<close>

definition non_space :: "char \<Rightarrow> bool" where
  "non_space c = (c \<notin> set [CHR 0x09, CHR 0x0A, CHR 0x0B, CHR 0x0C, CHR 0x0D, CHR 0x20])"

text \<open>\<^verbatim>\<open>/Content-Transfer-Encoding: (\S+)/.exec(info)\<close>, the group of the match.\<close>

definition encoding_at :: "string \<Rightarrow> string option" where
  "encoding_at s =
     (case strip_literal ''Content-Transfer-Encoding: '' s of
        None \<Rightarrow> None
      | Some rest \<Rightarrow> (let v = takeWhile non_space rest in if v \<noteq> [] then Some v else None))"

definition encodingMatch :: "string \<Rightarrow> string option" where
  "encodingMatch info = search encoding_at info"

text \<open>\<^verbatim>\<open>contentTypeHeader.match(/boundary=([^;]+)/i)\<close>, the group of the match.\<close>

definition boundary_at :: "string \<Rightarrow> string option" where
  "boundary_at s =
     (case strip_literal_ci ''boundary='' s of
        None \<Rightarrow> None
      | Some rest \<Rightarrow>
          (let v = takeWhile (\<lambda>c. c \<noteq> CHR '';'') rest in if v \<noteq> [] then Some v else None))"

definition boundaryMatch :: "string \<Rightarrow> string option" where
  "boundaryMatch contentTypeHeader = search boundary_at contentTypeHeader"

section \<open>getMimeTypeFromBuffer\<close>

text \<open>
  The table \<^verbatim>\<open>signatures\<close>, in the order in which \<^verbatim>\<open>for (const key in signatures)\<close>
  visits it: the keys that are array indices (\<^verbatim>\<open>494433\<close>, \<^verbatim>\<open>25504446\<close>, \<^verbatim>\<open>41564920\<close>)
  first, in ascending numeric order, then the other keys in the order of the source.
\<close>

definition signatures :: "(string \<times> string) list" where
  "signatures =
     [(''494433'', ''audio/mp3''),
      (''25504446'', ''application/pdf''),
      (''41564920'', ''video/avi''),
      (''89504e47'', ''image/png''),
      (''474946383761'', ''image/gif''),
      (''474946383961'', ''image/gif''),
      (''ffd8'', ''image/jpeg''),
      (''504b0304'', ''application/zip''),
      (''2e7261fd'', ''audio/vnd.rn-realaudio''),
      (''fffb'', ''audio/mp3''),
      (''4f676753'', ''audio/ogg''),
      (''1a45dfa3'', ''video/webm''),
      (''000001ba'', ''video/mpeg''),
      (''000001b3'', ''video/mpeg''),
      (''664c6143'', ''audio/flac''),
      (''4d546864'', ''audio/midi'')]"

text \<open>The \<^verbatim>\<open>for\<close> loop over the table: the type of the first key that the signature starts with.\<close>

fun first_signature :: "string \<Rightarrow> (string \<times> string) list \<Rightarrow> string option" where
  "first_signature signature [] = None"
| "first_signature signature ((key, mime) # rest) =
     (if startsWith signature (toLowerCase key) then Some mime
      else first_signature signature rest)"

definition getMimeTypeFromBuffer :: "buffer \<Rightarrow> error + string" where
  "getMimeTypeFromBuffer buffer =
     (let signature = toLowerCase (toString_hex buffer 0 (min 16 (length buffer)))
      in case first_signature signature signatures of
           Some mime \<Rightarrow> Inr mime
         | None \<Rightarrow>
             if startsWith signature ''52494646'' \<and> length buffer > 11 then
               (if toString_hex buffer 8 12 = ''57415645'' then Inr ''audio/wav''
                else if toString_hex buffer 8 12 = ''41564920'' then Inr ''video/avi''
                else Inl (Error ''Mime type unknown''))
             else Inl (Error ''Mime type unknown''))"

section \<open>parseJson\<close>

text \<open>
  \<^verbatim>\<open>JSON.parse\<close> belongs to the platform and is a parameter: it returns the decoded value
  or the error it throws. The header is \<open>None\<close> when the caller passes \<^verbatim>\<open>undefined\<close>,
  which \<^verbatim>\<open>contentTypeHeader?.startsWith\<close> allows for. A call returns how the promise
  settles and the stream as the call leaves it.
\<close>

definition parseJson ::
  "(string \<Rightarrow> error + 'j) \<Rightarrow> readable \<Rightarrow> string option \<Rightarrow> 'j promise \<times> readable" where
  "parseJson JSON_parse requestStream contentTypeHeader =
     (if \<not> (case contentTypeHeader of None \<Rightarrow> False
                | Some h \<Rightarrow> startsWith h ''application/json'')
      then (Rejected (Error ''Invalid content type''), requestStream)
      else
        (let data = concat (chunks requestStream);
             drained = requestStream
               \<lparr>chunks := [], listeners := listeners requestStream @ [''data'', ''error'', ''end'']\<rparr>
         in case closing requestStream of
              Errored e \<Rightarrow> (Rejected e, drained)
            | Ended \<Rightarrow>
                (case JSON_parse data of
                   Inr v \<Rightarrow> (Resolved v, drained)
                 | Inl e \<Rightarrow> (Rejected e, drained))))"

section \<open>parseMultipart\<close>

text \<open>
  Lines 71 to 90, the work of one loop iteration on \<^verbatim>\<open>part\<close>: \<open>Skip\<close> stands for the
  two \<^verbatim>\<open>continue\<close> statements, \<open>Throw\<close> for the exception of \<^verbatim>\<open>getMimeTypeFromBuffer\<close>,
  and \<open>Assign name v\<close> for \<^verbatim>\<open>data[name] = v\<close>.
\<close>

datatype part_result = Skip | Throw error | Assign string form_value

definition process_part :: "buffer \<Rightarrow> part_result" where
  "process_part part =
     (case indexOf part (CRLF @ CRLF) 0 of
        None \<Rightarrow> Skip
      | Some splitIdx \<Rightarrow>
          (let info = subarray part 0 (int splitIdx);
               body = subarray part (int splitIdx + 4) (int (length part) - 2)
           in case nameMatch info of
                None \<Rightarrow> Skip
              | Some name \<Rightarrow>
                  if includes_str info ''filename=\"'' then
                    (let fileName = (case filenameMatch info of Some f \<Rightarrow> f | None \<Rightarrow> '''');
                         encoding = (case encodingMatch info of Some e \<Rightarrow> e | None \<Rightarrow> ''7bit'')
                     in case getMimeTypeFromBuffer body of
                          Inl err \<Rightarrow> Throw err
                        | Inr mime \<Rightarrow>
                            Assign name (File \<lparr>body = body, fileName = fileName,
                                               encoding = encoding, mimeType = mime\<rparr>))
                  else Assign name (Field body)))"

text \<open>
  \<^verbatim>\<open>data[name] = v\<close> on the object that the literal \<^verbatim>\<open>{}\<close> of line 57 creates. The
  name \<^verbatim>\<open>__proto__\<close> is the accessor that the object inherits from \<^verbatim>\<open>Object.prototype\<close>,
  the only accessor there: the assignment calls its setter, which ignores a string and
  makes a \<^verbatim>\<open>FileData\<close> object the prototype of \<^verbatim>\<open>data\<close>, and in both cases
  \<^verbatim>\<open>data\<close> gets no property of its own. Every other name becomes or stays a property
  of \<^verbatim>\<open>data\<close> with the value \<open>v\<close>.
\<close>

definition set_property :: "form_data \<Rightarrow> string \<Rightarrow> form_value \<Rightarrow> form_data" where
  "set_property data name v = (if name = ''__proto__'' then data else data(name \<mapsto> v))"

text \<open>
  The \<^verbatim>\<open>while\<close> loop of lines 67 to 93, with \<open>idx\<close> and \<open>data\<close> as its state
  (\<^verbatim>\<open>lastIdx\<close> is only read in the statement after its assignment). A \<^verbatim>\<open>continue\<close>
  goes back to the loop test with \<open>idx\<close> and \<open>data\<close> as they are. The result is \<open>None\<close>
  when the loop does not end, \<open>Some (Inl err)\<close> when it throws, and \<open>Some (Inr data)\<close>
  when it is left with \<open>data\<close>.
\<close>

partial_function (option) scan ::
  "buffer \<Rightarrow> buffer \<Rightarrow> nat option \<Rightarrow> form_data \<Rightarrow> (error + form_data) option" where
  "scan fullBuffer boundaryBuffer idx data =
     (case idx of
        None \<Rightarrow> Some (Inr data)
      | Some i \<Rightarrow>
          (case indexOf fullBuffer boundaryBuffer (i + 1) of
             None \<Rightarrow> Some (Inr data)
           | Some endIdx \<Rightarrow>
               (case process_part
                       (subarray fullBuffer (int (i + length boundaryBuffer)) (int endIdx)) of
                  Skip \<Rightarrow> scan fullBuffer boundaryBuffer idx data
                | Throw err \<Rightarrow> Some (Inl err)
                | Assign name v \<Rightarrow>
                    scan fullBuffer boundaryBuffer
                      (indexOf fullBuffer boundaryBuffer endIdx) (set_property data name v))))"

declare scan.simps [code]

text \<open>The \<^verbatim>\<open>end\<close> listener, lines 62 to 97: \<open>None\<close> when it does not return.\<close>

definition on_end :: "buffer list \<Rightarrow> string \<Rightarrow> form_data promise option" where
  "on_end buffer boundary =
     (let fullBuffer = concat buffer;
          boundaryBuffer = ''--'' @ boundary
      in case scan fullBuffer boundaryBuffer (indexOf fullBuffer boundaryBuffer 0) Map.empty of
           None \<Rightarrow> None
         | Some (Inr data) \<Rightarrow> Some (Resolved data)
         | Some (Inl err) \<Rightarrow> Some (Rejected err))"

text \<open>
  A call returns how the promise settles (\<open>None\<close> when the \<^verbatim>\<open>end\<close> listener never
  returns, so that the promise is never settled) and the stream as the call leaves it.
\<close>

definition parseMultipart :: "readable \<Rightarrow> string \<Rightarrow> form_data promise option \<times> readable" where
  "parseMultipart requestStream contentTypeHeader =
     (if \<not> startsWith contentTypeHeader ''multipart/form-data''
      then (Some (Rejected (Error ''Invalid content type'')), requestStream)
      else
        (case boundaryMatch contentTypeHeader of
           None \<Rightarrow> (Some (Rejected (Error ''No boundary found'')), requestStream)
         | Some boundary \<Rightarrow>
             (let drained = requestStream
                    \<lparr>chunks := [], listeners := listeners requestStream @ [''data'', ''error'', ''end'']\<rparr>
              in case closing requestStream of
                   Errored e \<Rightarrow> (Some (Rejected e), drained)
                 | Ended \<Rightarrow> (on_end (chunks requestStream) boundary, drained))))"

section \<open>Notions of the specification\<close>

text \<open>
  The delimiter occurrences of a body, in ascending order, and its part segments: the
  bytes between one occurrence (after the delimiter's length) and the next occurrence.
\<close>

definition delimiters_from :: "buffer \<Rightarrow> buffer \<Rightarrow> nat \<Rightarrow> nat list" where
  "delimiters_from buf delim k = filter (\<lambda>i. prefix delim (drop i buf)) [k..<Suc (length buf)]"

fun segments :: "buffer \<Rightarrow> nat \<Rightarrow> nat list \<Rightarrow> buffer list" where
  "segments buf n (i # e # rest) = subarray buf (int (i + n)) (int e) # segments buf n (e # rest)"
| "segments buf n rest = []"

definition part_segments :: "buffer \<Rightarrow> buffer \<Rightarrow> buffer list" where
  "part_segments buf delim = segments buf (length delim) (delimiters_from buf delim 0)"

text \<open>
  What the loop makes of the results of the parts, taken in body order: a skipped part
  keeps it from ending, a thrown error leaves it, an assignment updates the mapping.
\<close>

fun run_parts :: "part_result list \<Rightarrow> form_data \<Rightarrow> (error + form_data) option" where
  "run_parts [] data = Some (Inr data)"
| "run_parts (Skip # rest) data = None"
| "run_parts (Throw err # rest) data = Some (Inl err)"
| "run_parts (Assign name v # rest) data = run_parts rest (set_property data name v)"

text \<open>
  A header has a usable boundary parameter when it contains \<^verbatim>\<open>boundary=\<close>, in any
  mix of upper and lower case, followed by a character other than a semicolon.
\<close>

definition has_boundary_parameter :: "string \<Rightarrow> bool" where
  "has_boundary_parameter h =
     (\<exists>before kw c rest. h = before @ kw @ c # rest \<and> toLowerCase kw = ''boundary='' \<and> c \<noteq> CHR '';'')"

section \<open>Example requests\<close>

definition stream_of :: "buffer list \<Rightarrow> readable" where
  "stream_of cs = \<lparr>chunks = cs, closing = Ended, listeners = []\<rparr>"

definition multipart_X :: string where
  "multipart_X = ''multipart/form-data; boundary=X''"

definition png_signature :: buffer where
  "png_signature = [CHR 0x89, CHR 0x50, CHR 0x4E, CHR 0x47, CHR 0x0D, CHR 0x0A, CHR 0x1A, CHR 0x0A]"

definition field_and_png_body :: buffer where
  "field_and_png_body =
     ''--X'' @ CRLF @ ''Content-Disposition: form-data; name=\"a\"'' @ CRLF @ CRLF
       @ ''hello'' @ CRLF @
     ''--X'' @ CRLF @ ''Content-Disposition: form-data; name=\"b\"; filename=\"f.png\"'' @ CRLF
       @ ''Content-Type: image/png'' @ CRLF @ CRLF
       @ png_signature @ CRLF @
     ''--X--'' @ CRLF"

definition wav_buffer :: buffer where
  "wav_buffer = ''RIFF'' @ [CHR 0x24, CHR 0x08, CHR 0x00, CHR 0x00] @ ''WAVEfmt ''"

definition avi_buffer :: buffer where
  "avi_buffer = ''RIFF'' @ [CHR 0x24, CHR 0x08, CHR 0x00, CHR 0x00] @ ''AVI LIST''"

definition webp_buffer :: buffer where
  "webp_buffer = ''RIFF'' @ [CHR 0x24, CHR 0x08, CHR 0x00, CHR 0x00] @ ''WEBPVP8 ''"

definition short_riff_buffer :: buffer where
  "short_riff_buffer = ''RIFF'' @ [CHR 0x24, CHR 0x08, CHR 0x00, CHR 0x00] @ ''WAV''"

definition no_divide_body :: buffer where
  "no_divide_body =
     ''--X'' @ CRLF @ ''Content-Disposition: form-data; name=\"a\"'' @ CRLF
       @ ''hello'' @ CRLF @
     ''--X--'' @ CRLF"

definition nameless_part_body :: buffer where
  "nameless_part_body =
     ''--X'' @ CRLF @ ''Content-Disposition: form-data'' @ CRLF @ CRLF
       @ ''stray'' @ CRLF @
     ''--X'' @ CRLF @ ''Content-Disposition: form-data; name=\"a\"'' @ CRLF @ CRLF
       @ ''hello'' @ CRLF @
     ''--X--'' @ CRLF"

definition unknown_file_body :: buffer where
  "unknown_file_body =
     ''--X'' @ CRLF @ ''Content-Disposition: form-data; name=\"b\"; filename=\"notes.txt\"'' @ CRLF
       @ CRLF @ ''plain text'' @ CRLF @
     ''--X--'' @ CRLF"

definition malformed_then_unknown_file_body :: buffer where
  "malformed_then_unknown_file_body = ''--X'' @ CRLF @ ''stray'' @ CRLF @ unknown_file_body"



definition empty_filename_info :: string where
  "empty_filename_info =
     CRLF @ ''Content-Disposition: form-data; name=\"f\"; filename=\"\"'' @ CRLF
       @ ''Content-Type: application/octet-stream''"

definition empty_file_part :: buffer where
  "empty_file_part = empty_filename_info @ CRLF @ CRLF @ CRLF"

definition empty_file_body :: buffer where
  "empty_file_body = ''--X'' @ empty_file_part @ ''--X--'' @ CRLF"

definition unnamed_png_part :: buffer where
  "unnamed_png_part = empty_filename_info @ CRLF @ CRLF @ png_signature @ CRLF"

definition unnamed_png_body :: buffer where
  "unnamed_png_body = ''--X'' @ unnamed_png_part @ ''--X--'' @ CRLF"

definition empty_boundary_header :: string where
  "empty_boundary_header = ''multipart/form-data; boundary=''"

definition second_filename_info :: string where
  "second_filename_info =
     CRLF @ ''Content-Disposition: form-data; name=\"f\"; filename=\"\"; orig-filename=\"g.png\"''"

definition second_filename_part :: buffer where
  "second_filename_part = second_filename_info @ CRLF @ CRLF @ png_signature @ CRLF"

section \<open>The loop, one iteration at a time\<close>

lemma scan_None: "scan buf delim None data = Some (Inr data)"
  by (subst scan.simps) simp

lemma scan_break:
  "indexOf buf delim (i + 1) = None \<Longrightarrow> scan buf delim (Some i) data = Some (Inr data)"
  by (subst scan.simps) simp

lemma scan_throw:
  "indexOf buf delim (i + 1) = Some e \<Longrightarrow>
   process_part (subarray buf (int (i + length delim)) (int e)) = Throw err \<Longrightarrow>
   scan buf delim (Some i) data = Some (Inl err)"
  by (subst scan.simps) simp

lemma scan_assign:
  "indexOf buf delim (i + 1) = Some e \<Longrightarrow>
   process_part (subarray buf (int (i + length delim)) (int e)) = Assign name v \<Longrightarrow>
   scan buf delim (Some i) data =
     scan buf delim (indexOf buf delim e) (set_property data name v)"
  by (subst scan.simps) simp

lemma scan_skip:
  assumes idx: "indexOf buf delim (i + 1) = Some e"
    and skip: "process_part (subarray buf (int (i + length delim)) (int e)) = Skip"
  shows "scan buf delim (Some i) data = None"
proof (rule ccontr)
  assume "scan buf delim (Some i) data \<noteq> None"
  then obtain y where y: "scan buf delim (Some i) data = Some y" by auto
  have "\<not> (buf = buf \<and> delim = delim \<and> Some i = Some i)"
  proof (rule scan.raw_induct
          [where P = "\<lambda>a b c d y. \<not> (a = buf \<and> b = delim \<and> c = Some i)", OF _ y])
    fix f a b c d r
    assume IH: "\<And>a b c d r. f a b c d = Some r \<Longrightarrow> \<not> (a = buf \<and> b = delim \<and> c = Some i)"
      and step: "(case c of
          None \<Rightarrow> Some (Inr d)
        | Some i \<Rightarrow>
            (case indexOf a b (i + 1) of
               None \<Rightarrow> Some (Inr d)
             | Some endIdx \<Rightarrow>
                 (case process_part (subarray a (int (i + length b)) (int endIdx)) of
                    Skip \<Rightarrow> f a b c d
                  | Throw err \<Rightarrow> Some (Inl err)
                  | Assign name v \<Rightarrow> f a b (indexOf a b endIdx) (set_property d name v)))) = Some r"
    show "\<not> (a = buf \<and> b = delim \<and> c = Some i)"
    proof
      assume eq: "a = buf \<and> b = delim \<and> c = Some i"
      with step idx skip have "f buf delim (Some i) d = Some r" by simp
      with IH show False by blast
    qed
  qed
  then show False by simp
qed

section \<open>The loop over the part segments of a body\<close>

lemma index_from_filter:
  "k \<le> length buf \<Longrightarrow>
   index_from delim (drop k buf) k =
     (case filter (\<lambda>i. prefix delim (drop i buf)) [k..<Suc (length buf)] of
        [] \<Rightarrow> None | i # _ \<Rightarrow> Some i)"
proof (induction "length buf - k" arbitrary: k)
  case 0
  then have "k = length buf" by simp
  then show ?case by simp
next
  case (Suc n)
  then have lt: "k < length buf" by simp
  have d: "drop k buf = buf ! k # drop (Suc k) buf"
    using lt by (simp add: Cons_nth_drop_Suc)
  have u: "[k..<Suc (length buf)] = k # [Suc k..<Suc (length buf)]"
    using lt by (simp add: upt_conv_Cons)
  have IH: "index_from delim (drop (Suc k) buf) (Suc k) =
     (case filter (\<lambda>i. prefix delim (drop i buf)) [Suc k..<Suc (length buf)] of
        [] \<Rightarrow> None | i # _ \<Rightarrow> Some i)"
    using Suc(1)[of "Suc k"] Suc(2) lt by simp
  show ?case
  proof (cases "prefix delim (drop k buf)")
    case True
    then show ?thesis unfolding u using d by simp
  next
    case False
    then show ?thesis unfolding u using d IH by simp
  qed
qed

lemma indexOf_delimiters:
  assumes "delim \<noteq> []"
  shows "indexOf buf delim k = (case delimiters_from buf delim k of [] \<Rightarrow> None | i # _ \<Rightarrow> Some i)"
proof (cases "k \<le> length buf")
  case True
  then show ?thesis
    using index_from_filter[of k buf delim] by (simp add: indexOf_def delimiters_from_def min_def)
next
  case False
  then show ?thesis using assms by (simp add: indexOf_def delimiters_from_def)
qed

lemma filter_upt_Cons:
  "filter P [k..<n] = i # rest \<Longrightarrow> filter P [Suc i..<n] = rest \<and> P i \<and> k \<le> i \<and> i < n"
proof (induction "n - k" arbitrary: k)
  case 0
  then show ?case by simp
next
  case (Suc m)
  then have lt: "k < n" by simp
  then have u: "[k..<n] = k # [Suc k..<n]" by (simp add: upt_conv_Cons)
  show ?case
  proof (cases "P k")
    case True
    with Suc.prems u lt show ?thesis by auto
  next
    case False
    with Suc.prems u have "filter P [Suc k..<n] = i # rest" by simp
    moreover have "m = n - Suc k" using Suc.hyps(2) by simp
    ultimately have "filter P [Suc i..<n] = rest \<and> P i \<and> Suc k \<le> i \<and> i < n"
      by (rule Suc.hyps(1)[rotated])
    then show ?thesis by simp
  qed
qed

lemma delimiters_from_Cons:
  assumes "delimiters_from buf delim k = i # rest"
  shows "delimiters_from buf delim (Suc i) = rest" and "delimiters_from buf delim i = i # rest"
proof -
  have *: "filter (\<lambda>i. prefix delim (drop i buf)) [Suc i..<Suc (length buf)] = rest
      \<and> prefix delim (drop i buf) \<and> k \<le> i \<and> i < Suc (length buf)"
    using assms unfolding delimiters_from_def by (rule filter_upt_Cons)
  then show "delimiters_from buf delim (Suc i) = rest" by (simp add: delimiters_from_def)
  from * have "[i..<Suc (length buf)] = i # [Suc i..<Suc (length buf)]"
    by (simp add: upt_conv_Cons)
  with * show "delimiters_from buf delim i = i # rest" by (simp add: delimiters_from_def)
qed

lemma scan_segments:
  assumes ne: "delim \<noteq> []"
  shows "delimiters_from buf delim i = i # rest \<Longrightarrow>
    scan buf delim (Some i) data =
      run_parts (map process_part (segments buf (length delim) (i # rest))) data"
proof (induction rest arbitrary: i data)
  case Nil
  then have "delimiters_from buf delim (Suc i) = []" by (rule delimiters_from_Cons(1))
  then have "indexOf buf delim (i + 1) = None" by (simp add: indexOf_delimiters[OF ne])
  then show ?case by (simp add: scan_break)
next
  case (Cons e rest)
  from Cons.prems have nxt: "delimiters_from buf delim (Suc i) = e # rest"
    by (rule delimiters_from_Cons(1))
  then have here: "delimiters_from buf delim e = e # rest" by (rule delimiters_from_Cons(2))
  from nxt have end_idx: "indexOf buf delim (i + 1) = Some e"
    by (simp add: indexOf_delimiters[OF ne])
  from here have again: "indexOf buf delim e = Some e" by (simp add: indexOf_delimiters[OF ne])
  show ?case
  proof (cases "process_part (subarray buf (int (i + length delim)) (int e))")
    case Skip
    with end_idx show ?thesis by (simp add: scan_skip)
  next
    case (Throw err)
    with end_idx show ?thesis by (simp add: scan_throw)
  next
    case (Assign name v)
    with end_idx again have "scan buf delim (Some i) data =
        scan buf delim (Some e) (set_property data name v)"
      using scan_assign[of buf delim i e name v data] by simp
    also have "\<dots> = run_parts (map process_part (segments buf (length delim) (e # rest)))
        (set_property data name v)"
      by (rule Cons.IH[OF here])
    finally show ?thesis using Assign by simp
  qed
qed

lemma scan_run_parts:
  assumes ne: "delim \<noteq> []"
  shows "scan buf delim (indexOf buf delim 0) data =
    run_parts (map process_part (part_segments buf delim)) data"
proof (cases "delimiters_from buf delim 0")
  case Nil
  then show ?thesis by (simp add: indexOf_delimiters[OF ne] part_segments_def scan_None)
next
  case (Cons i rest)
  then have "delimiters_from buf delim i = i # rest" by (rule delimiters_from_Cons(2))
  with Cons show ?thesis
    by (simp add: indexOf_delimiters[OF ne] part_segments_def scan_segments[OF ne])
qed

section \<open>Hexadecimal signatures\<close>

lemma hex_digit_inj:
  assumes "a < 16" "b < 16" "hex_digit a = hex_digit b"
  shows "a = b"
proof -
  have "distinct ''0123456789abcdef''" by simp
  moreover have "a < length ''0123456789abcdef''" "b < length ''0123456789abcdef''"
    using assms by simp_all
  ultimately show ?thesis
    using assms(3) unfolding hex_digit_def by (simp only: nth_eq_iff_index_eq)
qed

lemma hex_byte_inj: "hex_byte c = hex_byte d \<Longrightarrow> c = d"
proof -
  assume eq: "hex_byte c = hex_byte d"
  let ?m = "of_char c :: nat" and ?n = "of_char d :: nat"
  have "?m div 16 < 16" "?n div 16 < 16" "?m mod 16 < 16" "?n mod 16 < 16"
    using nat_of_char_less_256[of c] nat_of_char_less_256[of d] by presburger+
  with eq have "?m div 16 = ?n div 16" "?m mod 16 = ?n mod 16"
    unfolding hex_byte_def by (auto intro: hex_digit_inj)
  then have "?m = ?n" by (metis div_mult_mod_eq)
  then show "c = d" by simp
qed

lemma hex_inj: "concat (map hex_byte xs) = concat (map hex_byte ys) \<Longrightarrow> xs = ys"
proof (induction xs arbitrary: ys)
  case Nil
  then show ?case by (cases ys) (simp_all add: hex_byte_def)
next
  case (Cons x xs)
  then show ?case
  proof (cases ys)
    case Nil
    with Cons.prems show ?thesis by (simp add: hex_byte_def)
  next
    case (Cons y ys')
    have "length (hex_byte x) = length (hex_byte y)" by (simp add: hex_byte_def)
    with Cons Cons.prems
    have "hex_byte x = hex_byte y" "concat (map hex_byte xs) = concat (map hex_byte ys')"
      by simp_all
    with Cons.IH Cons show ?thesis by (simp add: hex_byte_inj)
  qed
qed

lemma lower_hex_digit: "n < 16 \<Longrightarrow> lower_char (hex_digit n) = hex_digit n"
proof -
  assume "n < 16"
  then have "hex_digit n \<in> set ''0123456789abcdef''"
    unfolding hex_digit_def by (intro nth_mem) simp
  moreover have "\<forall>c \<in> set ''0123456789abcdef''. lower_char c = c"
    by (simp add: lower_char_def)
  ultimately show ?thesis by blast
qed

lemma toLowerCase_hex: "toLowerCase (concat (map hex_byte xs)) = concat (map hex_byte xs)"
proof (induction xs)
  case Nil
  show ?case by (simp add: toLowerCase_def)
next
  case (Cons x xs)
  have "of_char x div 16 < (16::nat)" "of_char x mod 16 < (16::nat)"
    using nat_of_char_less_256[of x] by presburger+
  then have "map lower_char (hex_byte x) = hex_byte x"
    by (simp add: hex_byte_def lower_hex_digit)
  with Cons show ?case by (simp add: toLowerCase_def)
qed

lemma riff_no_signature:
  "first_signature (''52494646'' @ rest) signatures = None"
  by (simp add: signatures_def startsWith_def toLowerCase_def lower_char_def)

lemma riff_signature:
  assumes "take 4 buffer = [CHR 0x52, CHR 0x49, CHR 0x46, CHR 0x46]"
  shows "\<exists>rest. toLowerCase (toString_hex buffer 0 (min 16 (length buffer))) = ''52494646'' @ rest"
proof -
  have "buffer = [CHR 0x52, CHR 0x49, CHR 0x46, CHR 0x46] @ drop 4 buffer"
    using append_take_drop_id[of 4 buffer] assms by simp
  then obtain t where "buffer = [CHR 0x52, CHR 0x49, CHR 0x46, CHR 0x46] @ t" ..
  then have "toString_hex buffer 0 (min 16 (length buffer)) =
      ''52494646'' @ concat (map hex_byte (take 12 t))"
    by (simp add: toString_hex_def hex_byte_def hex_digit_def min_def)
  then show ?thesis
    using toLowerCase_hex[of "take (min 16 (length buffer)) buffer"]
    by (simp add: toString_hex_def)
qed

lemma toString_hex_eq:
  "toString_hex buffer start stop = concat (map hex_byte bytes) \<longleftrightarrow>
   take (stop - start) (drop start buffer) = bytes"
  unfolding toString_hex_def using hex_inj by blast

lemma hex_WAVE: "''57415645'' = concat (map hex_byte [CHR 0x57, CHR 0x41, CHR 0x56, CHR 0x45])"
  by (simp add: hex_byte_def hex_digit_def)

lemma hex_AVI: "''41564920'' = concat (map hex_byte [CHR 0x41, CHR 0x56, CHR 0x49, CHR 0x20])"
  by (simp add: hex_byte_def hex_digit_def)

lemma getMime_riff:
  assumes "take 4 buffer = [CHR 0x52, CHR 0x49, CHR 0x46, CHR 0x46]"
  shows "getMimeTypeFromBuffer buffer =
    (if 12 \<le> length buffer \<and> take 4 (drop 8 buffer) = [CHR 0x57, CHR 0x41, CHR 0x56, CHR 0x45]
       then Inr ''audio/wav''
     else if 12 \<le> length buffer \<and> take 4 (drop 8 buffer) = [CHR 0x41, CHR 0x56, CHR 0x49, CHR 0x20]
       then Inr ''video/avi''
     else Inl (Error ''Mime type unknown''))"
proof -
  obtain rest where sig: "toLowerCase (toString_hex buffer 0 (min 16 (length buffer))) = ''52494646'' @ rest"
    using riff_signature[OF assms] by blast
  have w: "toString_hex buffer 8 12 = ''57415645'' \<longleftrightarrow>
      take 4 (drop 8 buffer) = [CHR 0x57, CHR 0x41, CHR 0x56, CHR 0x45]"
    unfolding hex_WAVE by (simp only: toString_hex_eq) simp
  have a: "toString_hex buffer 8 12 = ''41564920'' \<longleftrightarrow>
      take 4 (drop 8 buffer) = [CHR 0x41, CHR 0x56, CHR 0x49, CHR 0x20]"
    unfolding hex_AVI by (simp only: toString_hex_eq) simp
  have s: "startsWith (''52494646'' @ rest) ''52494646''" by (simp add: startsWith_def)
  show ?thesis
    unfolding getMimeTypeFromBuffer_def Let_def sig riff_no_signature
    using w a s by (simp only: option.case) auto
qed

text \<open>
  No key of the table is a prefix of another key, so at most one key is a prefix of a
  given signature and the order in which the loop visits the table does not change what
  it returns.
\<close>

lemma signatures_prefix_free:
  "list_all (\<lambda>(k, m). list_all (\<lambda>(k', m'). prefix k k' = (k = k')) signatures) signatures"
  by (simp add: signatures_def)

section \<open>What the patterns match\<close>

lemma search_None_iff: "search m s = None \<longleftrightarrow> (\<forall>t. suffix t s \<longrightarrow> m t = None)"
  by (induction s) (auto simp: suffix_Cons split: option.splits)

lemma search_Some: "search m s = Some r \<Longrightarrow> \<exists>t. suffix t s \<and> m t = Some r"
  by (induction s) (auto simp: suffix_Cons split: option.splits)

lemma strip_literal_ci_Some_iff:
  "strip_literal_ci lit s = Some rest \<longleftrightarrow>
   (\<exists>kw. s = kw @ rest \<and> length kw = length lit \<and> toLowerCase kw = toLowerCase lit)"
proof (induction lit s rule: strip_literal_ci.induct)
  case (1 s)
  then show ?case by (auto simp: toLowerCase_def)
next
  case (2 p ps)
  then show ?case by (auto simp: toLowerCase_def)
next
  case (3 p ps c cs)
  show ?case
  proof
    assume "strip_literal_ci (p # ps) (c # cs) = Some rest"
    then have pc: "lower_char p = lower_char c" and "strip_literal_ci ps cs = Some rest"
      by (auto split: if_splits)
    with 3 obtain kw where "cs = kw @ rest" "length kw = length ps" "toLowerCase kw = toLowerCase ps"
      by auto
    with pc have "c # cs = (c # kw) @ rest \<and> length (c # kw) = length (p # ps) \<and>
        toLowerCase (c # kw) = toLowerCase (p # ps)"
      by (simp add: toLowerCase_def)
    then show "\<exists>kw. c # cs = kw @ rest \<and> length kw = length (p # ps) \<and>
        toLowerCase kw = toLowerCase (p # ps)" by blast
  next
    assume "\<exists>kw. c # cs = kw @ rest \<and> length kw = length (p # ps) \<and>
        toLowerCase kw = toLowerCase (p # ps)"
    then obtain kw where kw: "c # cs = kw @ rest" "length kw = length (p # ps)"
        "toLowerCase kw = toLowerCase (p # ps)" by blast
    then obtain k ks where "kw = k # ks" by (cases kw) auto
    with kw have "k = c" "cs = ks @ rest" "length ks = length ps" "lower_char c = lower_char p"
        "toLowerCase ks = toLowerCase ps"
      by (auto simp: toLowerCase_def)
    with 3 show "strip_literal_ci (p # ps) (c # cs) = Some rest" by auto
  qed
qed

lemma toLowerCase_boundary: "toLowerCase ''boundary='' = ''boundary=''"
  by (simp add: toLowerCase_def lower_char_def)

lemma boundary_at_iff:
  "boundary_at t \<noteq> None \<longleftrightarrow>
   (\<exists>kw c rest. t = kw @ c # rest \<and> toLowerCase kw = ''boundary='' \<and> c \<noteq> CHR '';'')"
proof
  assume "boundary_at t \<noteq> None"
  then obtain r where r: "strip_literal_ci ''boundary='' t = Some r"
      and tw: "takeWhile (\<lambda>c. c \<noteq> CHR '';'') r \<noteq> []"
    by (auto simp: boundary_at_def Let_def split: option.splits if_splits)
  from tw obtain c rest where cr: "r = c # rest" "c \<noteq> CHR '';''"
    by (cases r) (auto split: if_splits)
  from r obtain kw where "t = kw @ r" "toLowerCase kw = ''boundary=''"
    unfolding strip_literal_ci_Some_iff toLowerCase_boundary by blast
  with cr show "\<exists>kw c rest. t = kw @ c # rest \<and> toLowerCase kw = ''boundary='' \<and> c \<noteq> CHR '';''"
    by blast
next
  assume "\<exists>kw c rest. t = kw @ c # rest \<and> toLowerCase kw = ''boundary='' \<and> c \<noteq> CHR '';''"
  then obtain kw c rest where t: "t = kw @ c # rest" and kw: "toLowerCase kw = ''boundary=''"
      and c: "c \<noteq> CHR '';''" by blast
  from kw have "length kw = length ''boundary=''"
    by (metis length_map toLowerCase_def)
  with t kw have "strip_literal_ci ''boundary='' t = Some (c # rest)"
    unfolding strip_literal_ci_Some_iff toLowerCase_boundary by blast
  with c show "boundary_at t \<noteq> None" by (simp add: boundary_at_def)
qed

lemma boundaryMatch_None_iff: "boundaryMatch h = None \<longleftrightarrow> \<not> has_boundary_parameter h"
proof -
  have "has_boundary_parameter h \<longleftrightarrow> (\<exists>t. suffix t h \<and> boundary_at t \<noteq> None)"
    unfolding has_boundary_parameter_def boundary_at_iff suffix_def by auto
  then show ?thesis unfolding boundaryMatch_def search_None_iff by auto
qed

lemma includes_str_iff: "includes_str info lit \<longleftrightarrow> (\<exists>t. suffix t info \<and> prefix lit t)"
proof -
  have "search (\<lambda>s. if prefix lit s then Some () else None) info = None \<longleftrightarrow>
      (\<forall>t. suffix t info \<longrightarrow> \<not> prefix lit t)"
    unfolding search_None_iff by (auto split: if_splits)
  then show ?thesis unfolding includes_str_def by simp
qed

lemma includes_str_shorter:
  assumes "includes_str info (lit @ tail)"
  shows "includes_str info lit"
proof -
  from assms obtain t where "suffix t info" "prefix (lit @ tail) t"
    unfolding includes_str_iff by blast
  then have "suffix t info \<and> prefix lit t" by (auto dest: append_prefixD)
  then show ?thesis unfolding includes_str_iff by blast
qed

lemma quoted_at_nonempty: "quoted_at lit s = Some v \<Longrightarrow> v \<noteq> []"
  by (auto simp: quoted_at_def Let_def split: option.splits if_splits)

lemma nameMatch_nonempty:
  assumes "nameMatch info = Some name"
  shows "name \<noteq> []"
proof -
  from assms have "search (quoted_at ''name=\"'') info = Some name" by (simp add: nameMatch_def)
  from search_Some[OF this] obtain t where "quoted_at ''name=\"'' t = Some name" by blast
  then show ?thesis by (rule quoted_at_nonempty)
qed

section \<open>The results of the parts and the outcome of a call\<close>

lemma run_parts_append:
  "run_parts (xs @ ys) d =
     (case run_parts xs d of Some (Inr d') \<Rightarrow> run_parts ys d' | r \<Rightarrow> r)"
proof (induction xs arbitrary: d)
  case Nil
  show ?case by simp
next
  case (Cons r xs)
  then show ?case by (cases r) simp_all
qed

lemma run_parts_assigns:
  "\<forall>r \<in> set rs. \<exists>n v. r = Assign n v \<Longrightarrow> \<exists>d'. run_parts rs d = Some (Inr d')"
proof (induction rs arbitrary: d)
  case Nil
  show ?case by simp
next
  case (Cons r rs)
  then obtain n v where "r = Assign n v" by auto
  moreover have "\<exists>d'. run_parts rs (set_property d n v) = Some (Inr d')"
    by (rule Cons.IH) (use Cons.prems in simp)
  ultimately show ?case by simp
qed

lemma run_parts_Inr_assigns:
  "run_parts rs d = Some (Inr m) \<Longrightarrow> \<forall>r \<in> set rs. \<exists>n v. r = Assign n v"
proof (induction rs arbitrary: d)
  case Nil
  show ?case by simp
next
  case (Cons r rs)
  show ?case
  proof (cases r)
    case (Assign n v)
    with Cons.prems have "run_parts rs (set_property d n v) = Some (Inr m)" by simp
    then have "\<forall>r \<in> set rs. \<exists>n v. r = Assign n v" by (rule Cons.IH)
    with Assign show ?thesis by simp
  qed (use Cons.prems in simp_all)
qed



text \<open>Parts that assign to \<^verbatim>\<open>__proto__\<close> leave the mapping as it is.\<close>

lemma run_parts_proto:
  "\<forall>r \<in> set rs. \<exists>v. r = Assign ''__proto__'' v \<Longrightarrow> run_parts rs d = Some (Inr d)"
proof (induction rs)
  case Nil
  show ?case by simp
next
  case (Cons r rs)
  then obtain v where "r = Assign ''__proto__'' v" by auto
  with Cons show ?case by (simp add: set_property_def)
qed

lemma run_parts_dom:
  "run_parts rs d = Some (Inr m) \<Longrightarrow>
   dom m = dom d \<union> {n. n \<noteq> ''__proto__'' \<and> (\<exists>v. Assign n v \<in> set rs)}"
proof (induction rs arbitrary: d)
  case Nil
  then show ?case by simp
next
  case (Cons r rs)
  show ?case
  proof (cases r)
    case (Assign n v)
    with Cons.prems have "run_parts rs (set_property d n v) = Some (Inr m)" by simp
    then have "dom m = dom (set_property d n v) \<union>
        {n. n \<noteq> ''__proto__'' \<and> (\<exists>v. Assign n v \<in> set rs)}" by (rule Cons.IH)
    with Assign show ?thesis by (auto simp: set_property_def split: if_splits)
  qed (use Cons.prems in simp_all)
qed

lemma run_parts_Skip:
  assumes "\<forall>r \<in> set before. \<exists>n v. r = Assign n v"
  shows "run_parts (before @ Skip # after) d = None"
  using run_parts_assigns[OF assms, of d] by (auto simp: run_parts_append)

lemma run_parts_Throw:
  assumes "\<forall>r \<in> set before. \<exists>n v. r = Assign n v"
  shows "run_parts (before @ Throw err # after) d = Some (Inl err)"
  using run_parts_assigns[OF assms, of d] by (auto simp: run_parts_append)

lemma run_parts_None_iff:
  "run_parts rs d = None \<longleftrightarrow>
   (\<exists>before after. rs = before @ Skip # after \<and> (\<forall>r \<in> set before. \<exists>n v. r = Assign n v))"
proof
  show "run_parts rs d = None \<Longrightarrow>
    \<exists>before after. rs = before @ Skip # after \<and> (\<forall>r \<in> set before. \<exists>n v. r = Assign n v)"
  proof (induction rs arbitrary: d)
    case Nil
    then show ?case by simp
  next
    case (Cons r rs)
    show ?case
    proof (cases r)
      case Skip
      then have "r # rs = [] @ Skip # rs \<and> (\<forall>r \<in> set []. \<exists>n v. r = Assign n v)" by simp
      then show ?thesis by blast
    next
      case (Throw err)
      with Cons.prems show ?thesis by simp
    next
      case (Assign n v)
      with Cons.prems have "run_parts rs (set_property d n v) = None" by simp
      from Cons.IH[OF this] obtain before after where
        "rs = before @ Skip # after" "\<forall>r \<in> set before. \<exists>n v. r = Assign n v"
        by blast
      with Assign have "r # rs = (r # before) @ Skip # after \<and>
          (\<forall>r \<in> set (r # before). \<exists>n v. r = Assign n v)" by simp
      then show ?thesis by blast
    qed
  qed
next
  assume "\<exists>before after. rs = before @ Skip # after \<and> (\<forall>r \<in> set before. \<exists>n v. r = Assign n v)"
  then obtain before after where
    "rs = before @ Skip # after" "\<forall>r \<in> set before. \<exists>n v. r = Assign n v" by blast
  then show "run_parts rs d = None" by (simp add: run_parts_Skip)
qed

text \<open>When the loop never ends: a part is skipped and every part before it is assigned.\<close>

lemma scan_never_ends_iff:
  assumes "delim \<noteq> []"
  shows "scan buf delim (indexOf buf delim 0) data = None \<longleftrightarrow>
   (\<exists>before after. map process_part (part_segments buf delim) = before @ Skip # after \<and>
      (\<forall>r \<in> set before. \<exists>n v. r = Assign n v))"
  unfolding scan_run_parts[OF assms] by (rule run_parts_None_iff)

lemma process_part_Assign:
  assumes "process_part part = Assign name v"
  shows "\<exists>splitIdx. indexOf part (CRLF @ CRLF) 0 = Some splitIdx \<and>
    nameMatch (subarray part 0 (int splitIdx)) = Some name"
  using assms
  by (auto simp: process_part_def Let_def split: option.splits if_splits sum.splits)

lemma process_part_Throw:
  assumes "process_part part = Throw err"
  shows "\<exists>splitIdx. indexOf part (CRLF @ CRLF) 0 = Some splitIdx \<and>
    includes_str (subarray part 0 (int splitIdx)) ''filename=\"'' \<and>
    getMimeTypeFromBuffer (subarray part (int splitIdx + 4) (int (length part) - 2)) = Inl err"
  using assms
  by (auto simp: process_part_def Let_def split: option.splits if_splits sum.splits)

lemma getMimeTypeFromBuffer_error:
  "getMimeTypeFromBuffer buffer = Inl err \<Longrightarrow> err = Error ''Mime type unknown''"
  by (auto simp: getMimeTypeFromBuffer_def Let_def split: option.splits if_splits)

lemma getMimeTypeFromBuffer_unknown:
  assumes "first_signature (toLowerCase (toString_hex buffer 0 (min 16 (length buffer)))) signatures = None"
    and "\<not> (startsWith (toLowerCase (toString_hex buffer 0 (min 16 (length buffer)))) ''52494646''
          \<and> length buffer > 11)"
  shows "getMimeTypeFromBuffer buffer = Inl (Error ''Mime type unknown'')"
  using assms by (simp add: getMimeTypeFromBuffer_def Let_def)

lemma parseMultipart_outcome:
  assumes "startsWith contentTypeHeader ''multipart/form-data''"
    and "boundaryMatch contentTypeHeader = Some boundary"
    and "closing requestStream = Ended"
  shows "fst (parseMultipart requestStream contentTypeHeader) =
    (case run_parts
            (map process_part (part_segments (concat (chunks requestStream)) (''--'' @ boundary)))
            Map.empty of
       None \<Rightarrow> None
     | Some (Inr data) \<Rightarrow> Some (Resolved data)
     | Some (Inl err) \<Rightarrow> Some (Rejected err))"
  using assms by (simp add: parseMultipart_def on_end_def Let_def scan_run_parts)

lemma parseMultipart_Resolved:
  assumes "fst (parseMultipart requestStream contentTypeHeader) = Some (Resolved data)"
  shows "\<exists>boundary. boundaryMatch contentTypeHeader = Some boundary \<and>
    run_parts
      (map process_part (part_segments (concat (chunks requestStream)) (''--'' @ boundary)))
      Map.empty = Some (Inr data)"
proof -
  from assms have sw: "startsWith contentTypeHeader ''multipart/form-data''"
    by (auto simp: parseMultipart_def split: if_splits)
  with assms obtain boundary where b: "boundaryMatch contentTypeHeader = Some boundary"
    by (auto simp: parseMultipart_def split: option.splits)
  with assms sw have e: "closing requestStream = Ended"
    by (auto simp: parseMultipart_def Let_def split: closing.splits)
  from assms show ?thesis
    unfolding parseMultipart_outcome[OF sw b e] using b
    by (auto split: option.splits sum.splits)
qed

lemma unknown_file_rejects:
  assumes "startsWith contentTypeHeader ''multipart/form-data''"
    and "boundaryMatch contentTypeHeader = Some boundary"
    and "closing requestStream = Ended"
    and "map process_part (part_segments (concat (chunks requestStream)) (''--'' @ boundary)) =
           before @ Throw err # after"
    and "\<forall>r \<in> set before. \<exists>n v. r = Assign n v"
  shows "fst (parseMultipart requestStream contentTypeHeader) = Some (Rejected err)"
  unfolding parseMultipart_outcome[OF assms(1-3)] assms(4)
  by (simp add: run_parts_Throw[OF assms(5)])

lemma parseMultipart_attaches_listeners:
  assumes "startsWith contentTypeHeader ''multipart/form-data''"
    and "has_boundary_parameter contentTypeHeader"
  shows "snd (parseMultipart requestStream contentTypeHeader) =
    requestStream\<lparr>chunks := [], listeners := listeners requestStream @ [''data'', ''error'', ''end'']\<rparr>"
proof -
  from assms(2) obtain b where "boundaryMatch contentTypeHeader = Some b"
    using boundaryMatch_None_iff[of contentTypeHeader] by auto
  with assms(1) show ?thesis
    by (simp add: parseMultipart_def Let_def split: closing.splits)
qed

lemma parseJson_attaches_listeners:
  assumes "startsWith contentTypeHeader ''application/json''"
  shows "snd (parseJson JSON_parse requestStream (Some contentTypeHeader)) =
    requestStream\<lparr>chunks := [], listeners := listeners requestStream @ [''data'', ''error'', ''end'']\<rparr>"
  using assms by (simp add: parseJson_def Let_def split: closing.splits sum.splits)

lemma parseJson_undefined_header:
  "parseJson JSON_parse requestStream None =
    (Rejected (Error ''Invalid content type''), requestStream)"
  by (simp add: parseJson_def)

section \<open>The example requests, evaluated\<close>

lemma multipart_X_boundary:
  "startsWith multipart_X ''multipart/form-data''" "boundaryMatch multipart_X = Some ''X''"
  by code_simp+

lemma outcome_of_single_chunk:
  "fst (parseMultipart (stream_of [fullBuffer]) multipart_X) =
    (case run_parts (map process_part (part_segments fullBuffer ''--X'')) Map.empty of
       None \<Rightarrow> None
     | Some (Inr data) \<Rightarrow> Some (Resolved data)
     | Some (Inl err) \<Rightarrow> Some (Rejected err))"
  using parseMultipart_outcome[of multipart_X "''X''" "stream_of [fullBuffer]"]
  by (simp add: multipart_X_boundary stream_of_def)

lemma field_and_png_parts:
  "map process_part (part_segments field_and_png_body ''--X'') =
     [Assign ''a'' (Field ''hello''),
      Assign ''b'' (File \<lparr>body = png_signature, fileName = ''f.png'', encoding = ''7bit'',
                          mimeType = ''image/png''\<rparr>)]"
  by code_simp

lemma field_and_png_resolves:
  "fst (parseMultipart (stream_of [field_and_png_body]) multipart_X) =
    Some (Resolved
      [''a'' \<mapsto> Field ''hello'',
       ''b'' \<mapsto> File \<lparr>body = png_signature, fileName = ''f.png'', encoding = ''7bit'',
                         mimeType = ''image/png''\<rparr>])"
  by (simp add: outcome_of_single_chunk field_and_png_parts set_property_def)

lemma no_divide_parts: "map process_part (part_segments no_divide_body ''--X'') = [Skip]"
  by code_simp

lemma nameless_part_parts:
  "map process_part (part_segments nameless_part_body ''--X'') =
     [Skip, Assign ''a'' (Field ''hello'')]"
  by code_simp

lemma unknown_file_parts:
  "map process_part (part_segments unknown_file_body ''--X'') =
     [Throw (Error ''Mime type unknown'')]"
  by code_simp

lemma malformed_then_unknown_file_parts:
  "map process_part (part_segments malformed_then_unknown_file_body ''--X'') =
     [Skip, Throw (Error ''Mime type unknown'')]"
  by code_simp



lemma unnamed_png_process:
  "indexOf unnamed_png_part (CRLF @ CRLF) 0 = Some 95"
  "subarray unnamed_png_part 0 (int 95) = empty_filename_info"
  "subarray unnamed_png_part (int 95 + 4) (int (length unnamed_png_part) - 2) = png_signature"
  "nameMatch empty_filename_info = Some ''f''"
  "includes_str empty_filename_info ''filename=\"\"''"
  "filenameMatch empty_filename_info = None"
  "encodingMatch empty_filename_info = None"
  "getMimeTypeFromBuffer png_signature = Inr ''image/png''"
  by code_simp+

lemma empty_file_parts:
  "map process_part (part_segments empty_file_body ''--X'') =
     [Throw (Error ''Mime type unknown'')]"
  by code_simp

section \<open>Claims\<close>

text \<open>
  C1 says that the delimiter loop ends for every body and every non-empty boundary, and
  that a part segment without a double CRLF divide makes the parser search on from
  the end of that segment. The loop does not do this: its \<^verbatim>\<open>continue\<close> goes back to
  the loop test with \<open>idx\<close> unchanged, so the same segment is taken again and again
  (lemma \<open>scan_skip\<close>). For the body with the single part \<^verbatim>\<open>name="a"\<close> whose blank
  line between header and value is missing, the \<^verbatim>\<open>end\<close> listener never returns and
  the promise of \<^verbatim>\<open>parseMultipart\<close> is never settled.
\<close>

theorem no_divide_never_settles:
  "fst (parseMultipart (stream_of [no_divide_body]) multipart_X) = None"
  by (simp add: outcome_of_single_chunk no_divide_parts)

text \<open>
  C2 says that a part segment without a divide or without a \<^verbatim>\<open>name="..."\<close> attribute is
  skipped and that the call still resolves with the mapping of the other parts. For the
  body made of a part without a name attribute followed by the field part \<^verbatim>\<open>name="a"\<close>
  with the value \<^verbatim>\<open>hello\<close>, the loop stays on the first part and the promise of
  \<^verbatim>\<open>parseMultipart\<close> is never settled; it does not resolve with the mapping of
  \<^verbatim>\<open>a\<close> to \<^verbatim>\<open>hello\<close>.
\<close>

theorem nameless_part_never_settles:
  "fst (parseMultipart (stream_of [nameless_part_body]) multipart_X) = None"
  by (simp add: outcome_of_single_chunk nameless_part_parts)

text \<open>
  C3 says that every body with a file part of an unrecognised type is rejected with
  \<^verbatim>\<open>Mime type unknown\<close>. The body with the single file part \<^verbatim>\<open>notes.txt\<close> is rejected
  so; the same body after a part segment without a divide is not, because the loop never
  gets past that segment and the promise is never settled. Lemma
  \<open>unknown_file_rejects\<close> is the general statement for a file part that the loop
  reaches.
\<close>

theorem malformed_then_unknown_file_never_settles:
  "fst (parseMultipart (stream_of [unknown_file_body]) multipart_X) =
     Some (Rejected (Error ''Mime type unknown'')) \<and>
   fst (parseMultipart (stream_of [malformed_then_unknown_file_body]) multipart_X) = None"
  by (simp add: outcome_of_single_chunk unknown_file_parts malformed_then_unknown_file_parts)

text \<open>
  C4. A stream that emits, in any division into chunks, the multipart body with boundary
  \<^verbatim>\<open>X\<close> made of the field part \<^verbatim>\<open>name="a"\<close> with the value \<^verbatim>\<open>hello\<close> and the file
  part \<^verbatim>\<open>name="b"; filename="f.png"\<close> without a transfer-encoding header, whose body is
  the bytes 89 50 4E 47 0D 0A 1A 0A: \<^verbatim>\<open>parseMultipart\<close> resolves to the mapping of
  \<^verbatim>\<open>a\<close> to \<^verbatim>\<open>hello\<close> and of \<^verbatim>\<open>b\<close> to the file entry with the file name \<^verbatim>\<open>f.png\<close>,
  the encoding \<^verbatim>\<open>7bit\<close>, the type \<^verbatim>\<open>image/png\<close> and those bytes as its body.
\<close>

theorem parseMultipart_field_and_png:
  assumes "concat (chunks requestStream) = field_and_png_body"
    and "closing requestStream = Ended"
  shows "fst (parseMultipart requestStream multipart_X) =
    Some (Resolved
      [''a'' \<mapsto> Field ''hello'',
       ''b'' \<mapsto> File \<lparr>body = png_signature, fileName = ''f.png'', encoding = ''7bit'',
                         mimeType = ''image/png''\<rparr>])"
  using assms
  by (simp add: parseMultipart_outcome[of multipart_X "''X''"] multipart_X_boundary
      field_and_png_parts set_property_def)

theorem parseMultipart_field_and_png_witness:
  "fst (parseMultipart
     (stream_of [take 40 field_and_png_body, drop 40 field_and_png_body]) multipart_X) =
    Some (Resolved
      [''a'' \<mapsto> Field ''hello'',
       ''b'' \<mapsto> File \<lparr>body = png_signature, fileName = ''f.png'', encoding = ''7bit'',
                         mimeType = ''image/png''\<rparr>])"
  using parseMultipart_field_and_png
    [of "stream_of [take 40 field_and_png_body, drop 40 field_and_png_body]"]
  by (simp add: stream_of_def)

text \<open>
  C5. A buffer whose first four bytes are 52 49 46 46 matches no key of the signature
  table (lemma \<open>riff_no_signature\<close>), and \<^verbatim>\<open>getMimeTypeFromBuffer\<close> returns
  \<^verbatim>\<open>audio/wav\<close> when the buffer has at least 12 bytes and the bytes at offsets 8 to 11
  are 57 41 56 45, \<^verbatim>\<open>video/avi\<close> when it has at least 12 bytes and they are
  41 56 49 20, and fails with the error \<^verbatim>\<open>Mime type unknown\<close> when the buffer is shorter
  than 12 bytes or these bytes are anything else.
\<close>

theorem getMimeTypeFromBuffer_RIFF:
  assumes "take 4 buffer = [CHR 0x52, CHR 0x49, CHR 0x46, CHR 0x46]"
  shows
    "(12 \<le> length buffer \<and> take 4 (drop 8 buffer) = [CHR 0x57, CHR 0x41, CHR 0x56, CHR 0x45]
        \<longrightarrow> getMimeTypeFromBuffer buffer = Inr ''audio/wav'') \<and>
     (12 \<le> length buffer \<and> take 4 (drop 8 buffer) = [CHR 0x41, CHR 0x56, CHR 0x49, CHR 0x20]
        \<longrightarrow> getMimeTypeFromBuffer buffer = Inr ''video/avi'') \<and>
     (length buffer < 12 \<or>
      (take 4 (drop 8 buffer) \<noteq> [CHR 0x57, CHR 0x41, CHR 0x56, CHR 0x45] \<and>
       take 4 (drop 8 buffer) \<noteq> [CHR 0x41, CHR 0x56, CHR 0x49, CHR 0x20])
        \<longrightarrow> getMimeTypeFromBuffer buffer = Inl (Error ''Mime type unknown''))"
  unfolding getMime_riff[OF assms] by auto

theorem getMimeTypeFromBuffer_RIFF_witness:
  "getMimeTypeFromBuffer wav_buffer = Inr ''audio/wav'' \<and>
   getMimeTypeFromBuffer avi_buffer = Inr ''video/avi'' \<and>
   getMimeTypeFromBuffer webp_buffer = Inl (Error ''Mime type unknown'') \<and>
   getMimeTypeFromBuffer short_riff_buffer = Inl (Error ''Mime type unknown'')"
  using getMimeTypeFromBuffer_RIFF[of wav_buffer] getMimeTypeFromBuffer_RIFF[of avi_buffer]
    getMimeTypeFromBuffer_RIFF[of webp_buffer] getMimeTypeFromBuffer_RIFF[of short_riff_buffer]
  by (simp add: wav_buffer_def avi_buffer_def webp_buffer_def short_riff_buffer_def)




text \<open>
  C7. For every stream, \<^verbatim>\<open>parseMultipart\<close> called with a header that starts with
  \<^verbatim>\<open>multipart/form-data\<close> and has no usable boundary parameter (\<^verbatim>\<open>boundary=\<close> in any
  mix of cases followed by a character other than a semicolon) rejects with the error
  \<^verbatim>\<open>No boundary found\<close> and leaves the stream as it was: no listener is attached and no
  chunk is taken.
\<close>

theorem parseMultipart_no_boundary:
  assumes "startsWith contentTypeHeader ''multipart/form-data''"
    and "\<not> has_boundary_parameter contentTypeHeader"
  shows "parseMultipart requestStream contentTypeHeader =
    (Some (Rejected (Error ''No boundary found'')), requestStream)"
  using assms by (simp add: parseMultipart_def boundaryMatch_None_iff[symmetric])

theorem parseMultipart_no_boundary_witness:
  "parseMultipart (stream_of [field_and_png_body]) empty_boundary_header =
    (Some (Rejected (Error ''No boundary found'')), stream_of [field_and_png_body])"
proof -
  have "boundaryMatch empty_boundary_header = None" by code_simp
  then have "\<not> has_boundary_parameter empty_boundary_header"
    by (simp add: boundaryMatch_None_iff)
  moreover have "startsWith empty_boundary_header ''multipart/form-data''" by code_simp
  ultimately show ?thesis by (rule parseMultipart_no_boundary[rotated])
qed

text \<open>
  C8. For every stream, \<^verbatim>\<open>parseJson\<close> called with a header that does not start with
  \<^verbatim>\<open>application/json\<close> rejects with the error \<^verbatim>\<open>Invalid content type\<close> and leaves the
  stream as it was: no listener is attached and no chunk is taken.
\<close>

theorem parseJson_invalid_content_type:
  assumes "\<not> startsWith contentTypeHeader ''application/json''"
  shows "parseJson JSON_parse requestStream (Some contentTypeHeader) =
    (Rejected (Error ''Invalid content type''), requestStream)"
  using assms by (simp add: parseJson_def)

theorem parseJson_invalid_content_type_witness:
  "parseJson (\<lambda>text. Inr text) (stream_of [''{}'']) (Some ''text/plain'') =
    (Rejected (Error ''Invalid content type''), stream_of [''{}''])"
proof -
  have "\<not> startsWith ''text/plain'' ''application/json''" by (simp add: startsWith_def)
  then show ?thesis by (rule parseJson_invalid_content_type)
qed

text \<open>
  C9 as it is written fails on two inputs. The part that a browser sends for an empty
  file input has \<^verbatim>\<open>name="f"; filename=""\<close> and an empty body: its bytes have no known
  signature, \<^verbatim>\<open>getMimeTypeFromBuffer\<close> throws, and the call is rejected with no entry
  recorded. And a header with \<^verbatim>\<open>filename=""\<close> and later \<^verbatim>\<open>orig-filename="g.png"\<close>
  gives the file name \<^verbatim>\<open>g.png\<close>, because the file name pattern of the source takes
  the first value that is not empty.
\<close>

theorem empty_filename_not_recorded:
  "includes_str empty_filename_info ''filename=\"\"'' \<and>
   nameMatch empty_filename_info = Some ''f'' \<and>
   indexOf empty_file_part (CRLF @ CRLF) 0 = Some 95 \<and>
   subarray empty_file_part 0 95 = empty_filename_info \<and>
   part_segments empty_file_body ''--X'' = [empty_file_part] \<and>
   fst (parseMultipart (stream_of [empty_file_body]) multipart_X) =
     Some (Rejected (Error ''Mime type unknown'')) \<and>
   includes_str second_filename_info ''filename=\"\"'' \<and>
   nameMatch second_filename_info = Some ''f'' \<and>
   indexOf second_filename_part (CRLF @ CRLF) 0 = Some 78 \<and>
   subarray second_filename_part 0 78 = second_filename_info \<and>
   process_part second_filename_part =
     Assign ''f'' (File \<lparr>body = png_signature, fileName = ''g.png'', encoding = ''7bit'',
                         mimeType = ''image/png''\<rparr>)"
proof -
  have "includes_str empty_filename_info ''filename=\"\"''" by code_simp
  moreover have "nameMatch empty_filename_info = Some ''f''" by code_simp
  moreover have "indexOf empty_file_part (CRLF @ CRLF) 0 = Some 95" by code_simp
  moreover have "subarray empty_file_part 0 95 = empty_filename_info" by code_simp
  moreover have "part_segments empty_file_body ''--X'' = [empty_file_part]" by code_simp
  moreover have "fst (parseMultipart (stream_of [empty_file_body]) multipart_X) =
     Some (Rejected (Error ''Mime type unknown''))"
    by (simp add: outcome_of_single_chunk empty_file_parts)
  moreover have "includes_str second_filename_info ''filename=\"\"''" by code_simp
  moreover have "nameMatch second_filename_info = Some ''f''" by code_simp
  moreover have "indexOf second_filename_part (CRLF @ CRLF) 0 = Some 78" by code_simp
  moreover have "subarray second_filename_part 0 78 = second_filename_info" by code_simp
  moreover have "process_part second_filename_part =
     Assign ''f'' (File \<lparr>body = png_signature, fileName = ''g.png'', encoding = ''7bit'',
                         mimeType = ''image/png''\<rparr>)" by code_simp
  ultimately show ?thesis by blast
qed

text \<open>
  C9, amended. Let a part segment have a divide, and let its header block have a name
  attribute, contain \<^verbatim>\<open>filename=""\<close> and have no \<^verbatim>\<open>filename="..."\<close> with a value that
  is not empty, and let \<^verbatim>\<open>getMimeTypeFromBuffer\<close> recognise the body bytes. Then the loop
  iteration on this segment takes the part as a file and assigns to \<^verbatim>\<open>data[name]\<close> a
  file entry whose \<open>fileName\<close> is the empty string: it neither skips the part nor
  throws.
\<close>

theorem empty_filename_file_entry:
  assumes "indexOf part (CRLF @ CRLF) 0 = Some splitIdx"
    and "info = subarray part 0 (int splitIdx)"
    and "nameMatch info = Some name"
    and "includes_str info ''filename=\"\"''"
    and "filenameMatch info = None"
    and "getMimeTypeFromBuffer (subarray part (int splitIdx + 4) (int (length part) - 2)) = Inr mime"
  shows "process_part part =
    Assign name (File
      \<lparr>body = subarray part (int splitIdx + 4) (int (length part) - 2),
       fileName = '''',
       encoding = (case encodingMatch info of Some e \<Rightarrow> e | None \<Rightarrow> ''7bit''),
       mimeType = mime\<rparr>)"
proof -
  have "includes_str info ''filename=\"''"
    using assms(4) includes_str_shorter[of info "''filename=\"''" "''\"''"] by simp
  with assms(1-3,5,6) show ?thesis
    by (simp add: process_part_def Let_def)
qed

theorem empty_filename_file_entry_witness:
  "process_part unnamed_png_part =
     Assign ''f'' (File \<lparr>body = png_signature, fileName = '''', encoding = ''7bit'',
                         mimeType = ''image/png''\<rparr>) \<and>
   fst (parseMultipart (stream_of [unnamed_png_body]) multipart_X) =
     Some (Resolved
       [''f'' \<mapsto> File \<lparr>body = png_signature, fileName = '''', encoding = ''7bit'',
                         mimeType = ''image/png''\<rparr>])"
proof -
  have mime: "getMimeTypeFromBuffer
      (subarray unnamed_png_part (int 95 + 4) (int (length unnamed_png_part) - 2)) = Inr ''image/png''"
    by (simp only: unnamed_png_process)
  have entry: "process_part unnamed_png_part =
     Assign ''f'' (File \<lparr>body = png_signature, fileName = '''', encoding = ''7bit'',
                         mimeType = ''image/png''\<rparr>)"
    using empty_filename_file_entry
      [OF unnamed_png_process(1) unnamed_png_process(2)[symmetric] unnamed_png_process(4,5,6) mime]
    unfolding unnamed_png_process(3) unnamed_png_process(7) by simp
  have "part_segments unnamed_png_body ''--X'' = [unnamed_png_part]" by code_simp
  with entry have "fst (parseMultipart (stream_of [unnamed_png_body]) multipart_X) =
     Some (Resolved
       [''f'' \<mapsto> File \<lparr>body = png_signature, fileName = '''', encoding = ''7bit'',
                         mimeType = ''image/png''\<rparr>])"
    by (simp add: outcome_of_single_chunk set_property_def)
  with entry show ?thesis by simp
qed

text \<open>
  C10. Whenever \<^verbatim>\<open>parseMultipart\<close> resolves, every key of the resolved mapping is a
  string that is not empty, and it is the value that the name pattern of the source
  extracts from the header block of a part segment of the body.
\<close>

theorem parseMultipart_keys_nonempty:
  assumes "fst (parseMultipart requestStream contentTypeHeader) = Some (Resolved data)"
    and "key \<in> dom data"
  shows "key \<noteq> '''' \<and>
    (\<exists>boundary part splitIdx.
       boundaryMatch contentTypeHeader = Some boundary \<and>
       part \<in> set (part_segments (concat (chunks requestStream)) (''--'' @ boundary)) \<and>
       indexOf part (CRLF @ CRLF) 0 = Some splitIdx \<and>
       nameMatch (subarray part 0 (int splitIdx)) = Some key)"
proof -
  from parseMultipart_Resolved[OF assms(1)] obtain boundary where
    b: "boundaryMatch contentTypeHeader = Some boundary" and
    r: "run_parts
      (map process_part (part_segments (concat (chunks requestStream)) (''--'' @ boundary)))
      Map.empty = Some (Inr data)" by blast
  from run_parts_dom[OF r] assms(2)
  have "\<exists>v. Assign key v \<in> set (map process_part
      (part_segments (concat (chunks requestStream)) (''--'' @ boundary)))"
    by auto
  then obtain v part where
    p: "part \<in> set (part_segments (concat (chunks requestStream)) (''--'' @ boundary))"
    and a: "process_part part = Assign key v"
    unfolding set_map image_iff by metis
  from process_part_Assign[OF a] obtain splitIdx where
    s: "indexOf part (CRLF @ CRLF) 0 = Some splitIdx"
       "nameMatch (subarray part 0 (int splitIdx)) = Some key" by blast
  with nameMatch_nonempty have "key \<noteq> ''''" by blast
  with b p s show ?thesis by blast
qed

theorem parseMultipart_keys_nonempty_witness:
  "''b'' \<noteq> '''' \<and>
    (\<exists>boundary part splitIdx.
       boundaryMatch multipart_X = Some boundary \<and>
       part \<in> set (part_segments (concat (chunks (stream_of [field_and_png_body]))) (''--'' @ boundary)) \<and>
       indexOf part (CRLF @ CRLF) 0 = Some splitIdx \<and>
       nameMatch (subarray part 0 (int splitIdx)) = Some ''b'')"
  by (rule parseMultipart_keys_nonempty[OF field_and_png_resolves]) simp

end
